theory Spec2Isabelle
  imports Main
begin

section \<open>Errors, ledger records and the trace of external calls\<close>

text \<open>
  Every failure of the commands is a JavaScript exception. The constructors below stand for
  the exceptions the sources raise, one per message:
  \<^item> \<open>FlagsConsistencyError a c\<close>: "Flags consistency error. --await (a) should be strictly
    higher than --confirmations (c)" (SetPropertiesCommand.do);
  \<^item> \<open>UnikidFormatError\<close>: "Unikid parameter does not match expected format";
  \<^item> \<open>PropertyFormatError k\<close>: "Property k does not match expected format";
  \<^item> \<open>PassphraseFormatError\<close>: "Wrong pass phrase format";
  \<^item> \<open>PropertySeparatorError p\<close>: "Property p, doesn't contain :";
  \<^item> \<open>TargetFormatError\<close>: "Unik target argument does not match expected format.";
  \<^item> \<open>DataConsistencyError\<close>: "Unable to read right now. Please retry.";
  \<^item> \<open>TransactionIdUndefined\<close>: "Transaction id can't be undefined";
  \<^item> \<open>TransactionNotAccepted errs\<close>: "Transaction not accepted. Caused by: errs";
  \<^item> \<open>TransactionNotFoundYet url\<close>: the message of \<open>this.error\<close> in the vote command;
  \<^item> \<open>DelegateNotFound\<close>, \<open>NotRegisteredAsDelegate\<close>: the two errors of
    resolveDelegateWalletPublicKey;
  \<^item> \<open>TypeError\<close>: the runtime's own exception for a property read on \<open>null\<close> or
    \<open>undefined\<close>;
  \<^item> \<open>HttpNotFoundError\<close> and \<open>ServiceError msg\<close>: exceptions thrown by the ledger
    service and the name resolution.
\<close>

text \<open>
  What an external collaborator can fail with: the \<open>HttpNotFoundError\<close> that
  \<open>applyWalletPredicate\<close> catches, or any other exception, kept as its message.
\<close>

datatype serviceFailure = NotFound | Failure string

datatype error =
    FlagsConsistencyError int int
  | UnikidFormatError
  | PropertyFormatError string
  | PassphraseFormatError
  | PropertySeparatorError string
  | TargetFormatError
  | DataConsistencyError
  | TransactionIdUndefined
  | TransactionNotAccepted "string list"
  | TransactionNotFoundYet string
  | DelegateNotFound
  | NotRegisteredAsDelegate
  | TypeError
  | HttpNotFoundError
  | ServiceError string

fun thrown :: "serviceFailure \<Rightarrow> error" where
  "thrown NotFound = HttpNotFoundError"
| "thrown (Failure msg) = ServiceError msg"

text \<open>A transaction as the ledger service reports it.\<close>

record transaction =
  tx_id :: string
  confirmations :: int

text \<open>
  Calls that leave the process: queries and submissions to the ledger service, the name
  resolution and interactive prompts. A command appends one event per call, oldest
  first. \<open>GetTransaction txid ms\<close> is a query for a transaction with the timeout \<open>ms\<close>.
\<close>

datatype event =
    GetTransaction string int
  | GetUnikById string
  | ResolveUnikName string
  | GetUniknameWalletAddress string
  | GetNonce string
  | GetWallet string
  | SendTransaction "string option"
  | PromptPassphrase
  | PromptSecondPassphrase

fun isGetTransaction :: "event \<Rightarrow> bool" where
  "isGetTransaction (GetTransaction _ _) = True"
| "isGetTransaction _ = False"

text \<open>The number of transaction queries a trace holds.\<close>

definition queries :: "event list \<Rightarrow> nat" where
  "queries tr = length (filter isGetTransaction tr)"

section \<open>The confirmation tracker\<close>

text \<open>
  \<open>unsClientWrapper.getTransaction\<close> is an external collaborator: \<open>getTransaction k txid\<close> is
  what it answers to the query that \<open>k\<close> earlier queries precede (\<open>None\<close> for \<open>undefined\<close>,
  a transaction the ledger has not indexed).
\<close>

type_synonym ledger = "nat \<Rightarrow> string \<Rightarrow> transaction option"

text \<open>
  Line 230 of baseCommand:
  \<^verbatim>\<open>transactionFromNetwork?.confirmations ? transactionFromNetwork.confirmations : 0\<close>.
\<close>

definition confirmationsOf :: "transaction option \<Rightarrow> int" where
  "confirmationsOf transactionFromNetwork =
     (case transactionFromNetwork of
        None \<Rightarrow> 0
      | Some t \<Rightarrow> if confirmations t \<noteq> 0 then confirmations t else 0)"

text \<open>
  \<open>waitTransactionConfirmations\<close>, with the trace of calls passed through. The block time
  and the two counts are integers, as the integer flags and the callers give them; the
  defaults of the two last parameters are not used by any caller under src/.
\<close>

function waitTransactionConfirmations ::
  "ledger \<Rightarrow> int \<Rightarrow> string \<Rightarrow> int \<Rightarrow> int \<Rightarrow> event list \<Rightarrow> transaction option \<times> event list"
where
  "waitTransactionConfirmations getTransaction blockTime transactionId numberOfRetry
      expectedConfirmations tr =
     (let transactionFromNetwork = getTransaction (queries tr) transactionId;
          tr' = tr @ [GetTransaction transactionId (blockTime * 1000)];
          confirmations = confirmationsOf transactionFromNetwork
      in if confirmations < expectedConfirmations \<and> numberOfRetry > 0
         then waitTransactionConfirmations getTransaction blockTime transactionId
                (numberOfRetry - 1) expectedConfirmations tr'
         else (transactionFromNetwork, tr'))"
  by pat_completeness auto
termination
  by (relation "measure (\<lambda>(g, b, t, n, e, tr). nat n)") auto

text \<open>
  Two ledger doubles for concrete runs: one answers the successive queries with the
  confirmation counts of a list (and with \<open>undefined\<close> after the list's end), the other
  with the same count on every query.
\<close>

definition ledgerOfList :: "int list \<Rightarrow> ledger" where
  "ledgerOfList cs k txid =
     (if k < length cs then Some \<lparr>tx_id = txid, confirmations = cs ! k\<rparr> else None)"

definition constantLedger :: "int \<Rightarrow> ledger" where
  "constantLedger c k txid = Some \<lparr>tx_id = txid, confirmations = c\<rparr>"

section \<open>Format checks of utils\<close>

text \<open>
  JavaScript truthiness of a value that is a string or \<open>undefined\<close>: the empty string and
  \<open>undefined\<close> are falsy.
\<close>

fun truthy :: "string option \<Rightarrow> bool" where
  "truthy None = False"
| "truthy (Some s) = (s \<noteq> [])"

text \<open>
  \<open>String.prototype.split\<close> with a one-character separator: every occurrence of the
  separator ends a piece, pieces may be empty, and the empty string gives one empty piece.
\<close>

fun str_split :: "char \<Rightarrow> string \<Rightarrow> string list" where
  "str_split sep [] = [[]]"
| "str_split sep (c # cs) =
     (if c = sep then [] # str_split sep cs
      else (case str_split sep cs of
              [] \<Rightarrow> [[c]]
            | p # ps \<Rightarrow> (c # p) # ps))"

definition checkUnikIdFormat :: "string \<Rightarrow> error + unit" where
  "checkUnikIdFormat unikid =
     (let valid = (unikid \<noteq> [] \<and> length unikid = 64)
      in if \<not> valid then Inl UnikidFormatError else Inr ())"

definition checkPassphraseFormat :: "string \<Rightarrow> error + unit" where
  "checkPassphraseFormat passphrase =
     (let valid = (passphrase \<noteq> [] \<and> length (str_split CHR '' '' passphrase) = 12)
      in if \<not> valid then Inl PassphraseFormatError else Inr ())"

text \<open>The character class \<open>[a-zA-Z0-9]\<close>.\<close>

definition isAlnum :: "char \<Rightarrow> bool" where
  "isAlnum c =
     (let n = (of_char c :: nat)
      in (97 \<le> n \<and> n \<le> 122) \<or> (65 \<le> n \<and> n \<le> 90) \<or> (48 \<le> n \<and> n \<le> 57))"

text \<open>
  \<open>propertyKey.match(/[a-zA-Z0-9]+/)\<close>: \<open>null\<close> (here \<open>None\<close>) when the string has no
  character of the class, and otherwise the match array, whose element 0 is the leftmost
  longest run of such characters.
\<close>

definition match_alnum :: "string \<Rightarrow> string option" where
  "match_alnum s =
     (let rest = dropWhile (\<lambda>c. \<not> isAlnum c) s
      in if rest = [] then None else Some (takeWhile isAlnum rest))"

text \<open>
  \<open>checkUnikPropertyFormat\<close>: an empty key makes \<open>valid\<close> falsy at once; otherwise
  \<open>match(...)[0]\<close> is read, which is a TypeError when \<open>match\<close> gave \<open>null\<close>.
\<close>

definition checkUnikPropertyFormat :: "string \<Rightarrow> error + unit" where
  "checkUnikPropertyFormat propertyKey =
     (if propertyKey = [] then Inl (PropertyFormatError propertyKey)
      else (case match_alnum propertyKey of
              None \<Rightarrow> Inl TypeError
            | Some m \<Rightarrow>
                if m = propertyKey then Inr () else Inl (PropertyFormatError propertyKey)))"

text \<open>
  Tokens delimited by whitespace, as the words of a line are usually counted: maximal runs
  of characters other than space, tab, line feed, vertical tab, form feed and carriage
  return. This reading of "whitespace-delimited tokens" is compared with \<open>str_split\<close>.
\<close>

definition isWhitespace :: "char \<Rightarrow> bool" where
  "isWhitespace c = (of_char c \<in> {9, 10, 11, 12, 13, 32 :: nat})"

fun ws_tokens_from :: "string \<Rightarrow> string \<Rightarrow> string list" where
  "ws_tokens_from cur [] = (if cur = [] then [] else [cur])"
| "ws_tokens_from cur (c # cs) =
     (if isWhitespace c
      then (if cur = [] then ws_tokens_from [] cs else cur # ws_tokens_from [] cs)
      else ws_tokens_from (cur @ [c]) cs)"

definition whitespace_tokens :: "string \<Rightarrow> string list" where
  "whitespace_tokens s = ws_tokens_from [] s"

section \<open>Consistency of independently read heights\<close>

text \<open>
  \<open>heights.every((v) => v === heights[0])\<close>: on the empty list \<open>every\<close> is true and
  \<open>heights[0]\<close>, which is \<open>undefined\<close> there, is never compared.
\<close>

definition checkDataConsistency :: "string list \<Rightarrow> error + unit" where
  "checkDataConsistency heights =
     (if \<not> list_all (\<lambda>v. Some v = (case heights of [] \<Rightarrow> None | h # _ \<Rightarrow> Some h)) heights
      then Inl DataConsistencyError
      else Inr ())"

section \<open>Commands as computations over the trace\<close>

text \<open>
  An asynchronous method is a function from the trace so far to its outcome (\<open>Inl\<close> an
  exception, \<open>Inr\<close> the value) and the extended trace. \<open>andThen\<close> is \<open>await\<close> followed by
  the rest of the body: an exception ends the body. \<open>call ev r\<close> is a call to an external
  collaborator that is recorded as \<open>ev\<close> and answers \<open>r\<close>, a failure being thrown. Lines written to the terminal
  (\<open>this.log\<close>, \<open>this.info\<close>, the action spinner) are not traced.
\<close>

type_synonym 'a io = "event list \<Rightarrow> (error + 'a) \<times> event list"

definition ret :: "'a \<Rightarrow> 'a io" where
  "ret x tr = (Inr x, tr)"

definition throw :: "error \<Rightarrow> 'a io" where
  "throw e tr = (Inl e, tr)"

definition lift :: "error + 'a \<Rightarrow> 'a io" where
  "lift r tr = (r, tr)"

definition call :: "event \<Rightarrow> serviceFailure + 'a \<Rightarrow> 'a io" where
  "call ev r tr =
     (case r of
        Inl f \<Rightarrow> (Inl (thrown f), tr @ [ev])
      | Inr x \<Rightarrow> (Inr x, tr @ [ev]))"

definition andThen :: "'a io \<Rightarrow> ('a \<Rightarrow> 'b io) \<Rightarrow> 'b io" where
  "andThen m f tr =
     (case m tr of
        (Inl e, tr') \<Rightarrow> (Inl e, tr')
      | (Inr x, tr') \<Rightarrow> f x tr')"

subsection \<open>Data of the ledger service and of the commands\<close>

record chainMeta =
  height :: int

record unik =
  ownerId :: string
  unik_chainmeta :: chainMeta
  unik_transactions :: "string list option"

record wallet =
  address :: string
  publicKey :: string
  secondPublicKey :: "string option"
  isDelegate :: bool

record resolvedData =
  data_unikid :: string
  data_ownerAddress :: string

record resolveResponse =
  resolve_error :: "serviceFailure option"
  resolve_data :: "resolvedData option"
  resolve_chainmeta :: "chainMeta option"

record unikInfos =
  unikid :: string
  ownerAddress :: string
  chainmeta :: "chainMeta option"
  transactions :: "string list option"

record cryptoAccountPassphrases =
  first :: string
  second :: "string option"

text \<open>
  A property dictionary: a key that is not set maps to \<open>None\<close>, a key set to \<open>null\<close> to
  \<open>Some None\<close>, a key set to a string to \<open>Some (Some v)\<close>.
\<close>

type_synonym properties = "string \<rightharpoonup> string option"

record transactionStruct =
  struct_id :: "string option"
  struct_fee :: int

record sendResult =
  send_errors :: "string list option"

record flags =
  flag_unikid :: string
  flag_properties :: "string list"
  flag_await :: int
  flag_confirmations :: int
  flag_passphrase :: "string option"
  flag_second_passphrase :: "string option"
  flag_fee :: int

record commandOutput =
  out_id :: string
  out_transaction :: string
  out_confirmations :: int


text \<open>
  The collaborators the sources import and do not define: the ledger service behind
  \<open>unsClientWrapper\<close> and \<open>api\<close>, the transaction builders, the key derivation, the
  classification of a target (\<open>isTokenId\<close>, \<open>isDid\<close> of utils), the name resolution and
  the answers typed at the prompts. A command is modelled for every choice of them.
\<close>

record env =
  getTransaction :: ledger
  getUnikById :: "string \<Rightarrow> serviceFailure + unik"
  resolveUnikName :: "string \<Rightarrow> flags \<Rightarrow> serviceFailure + resolveResponse"
  getUniknameWalletAddress :: "string \<Rightarrow> serviceFailure + string"
  getNonce :: "string \<Rightarrow> serviceFailure + int"
  getWallet :: "string \<Rightarrow> serviceFailure + wallet option"
  sendTransaction :: "transactionStruct \<Rightarrow> serviceFailure + sendResult"
  getBlockTime :: int
  getVersion :: int
  getExplorerUrl :: string
  network :: string
  isTokenId :: "string \<Rightarrow> bool"
  isDid :: "string \<Rightarrow> bool"
  getWalletFromPassphrase :: "string \<Rightarrow> string \<Rightarrow> wallet"
  addressFromPassphrase :: "string \<Rightarrow> string"
  promptPassphrase :: string
  promptSecondPassphrase :: string
  builderNftUpdate :: "string \<Rightarrow> properties \<Rightarrow> int \<Rightarrow> int \<Rightarrow> string \<Rightarrow> transactionStruct"
  utilsCreateNFTUpdateTransaction ::
    "string \<Rightarrow> properties \<Rightarrow> int \<Rightarrow> string \<Rightarrow> string \<Rightarrow> string option \<Rightarrow> transactionStruct"
  createVoteTransaction ::
    "string list \<Rightarrow> int \<Rightarrow> string \<Rightarrow> string \<Rightarrow> string option \<Rightarrow> transactionStruct"
  awaitNeeded :: "flags \<Rightarrow> bool"

text \<open>The prompts of utils: \<open>cli.prompt\<close> with the answer typed by the user.\<close>

definition getPassphraseFromUser :: "env \<Rightarrow> string io" where
  "getPassphraseFromUser env = call PromptPassphrase (Inr (promptPassphrase env))"

definition getSecondPassphraseFromUser :: "env \<Rightarrow> string io" where
  "getSecondPassphraseFromUser env =
     call PromptSecondPassphrase (Inr (promptSecondPassphrase env))"

text \<open>
  \<open>createNFTUpdateTransaction\<close> of the utils under src/: the builder chain of the client,
  \<open>nftUpdate(tokenId).properties(..).fee(..).network(..).sign(..).getStruct()\<close>.
\<close>

definition createNFTUpdateTransaction ::
  "env \<Rightarrow> string \<Rightarrow> properties \<Rightarrow> int \<Rightarrow> int \<Rightarrow> string \<Rightarrow> transactionStruct" where
  "createNFTUpdateTransaction env tokenId props fees networkVerion passphrase =
     builderNftUpdate env tokenId props fees networkVerion passphrase"

text \<open>The tracker as a step of a command.\<close>

definition awaitWaitTransactionConfirmations ::
  "env \<Rightarrow> int \<Rightarrow> string \<Rightarrow> int \<Rightarrow> int \<Rightarrow> transaction option io" where
  "awaitWaitTransactionConfirmations env blockTime transactionId numberOfRetry
     expectedConfirmations tr =
     (case waitTransactionConfirmations (getTransaction env) blockTime transactionId
             numberOfRetry expectedConfirmations tr of
        (t, tr') \<Rightarrow> (Inr t, tr'))"

subsection \<open>Target resolution\<close>

definition targetResolve :: "env \<Rightarrow> flags \<Rightarrow> string \<Rightarrow> unikInfos io" where
  "targetResolve env flgs target =
     (if isTokenId env target then
        andThen (call (GetUnikById target) (getUnikById env target)) (\<lambda>unikInfos.
          ret \<lparr>unikid = target, ownerAddress = ownerId unikInfos,
               chainmeta = Some (unik_chainmeta unikInfos),
               transactions = unik_transactions unikInfos\<rparr>)
      else if isDid env target then
        andThen (call (ResolveUnikName target) (resolveUnikName env target flgs)) (\<lambda>resolved.
          case resolve_error resolved of
            Some e \<Rightarrow> throw (thrown e)
          | None \<Rightarrow>
              (case resolve_data resolved of
                 None \<Rightarrow> throw TypeError
               | Some d \<Rightarrow>
                   ret \<lparr>unikid = data_unikid d, ownerAddress = data_ownerAddress d,
                        chainmeta = resolve_chainmeta resolved, transactions = None\<rparr>))
      else throw TargetFormatError)"

definition resolveDelegateWalletPublicKey :: "env \<Rightarrow> string \<Rightarrow> string io" where
  "resolveDelegateWalletPublicKey env delegateId =
     andThen
       (if delegateId \<noteq> [] \<and> take 1 delegateId = ''@'' then
          call (GetUniknameWalletAddress delegateId) (getUniknameWalletAddress env delegateId)
        else
          andThen (lift (checkUnikIdFormat delegateId)) (\<lambda>_.
          andThen (call (GetUnikById delegateId) (getUnikById env delegateId)) (\<lambda>unik.
            ret (ownerId unik))))
       (\<lambda>walletAddress.
          andThen (call (GetWallet walletAddress) (getWallet env walletAddress)) (\<lambda>wallet.
            case wallet of
              None \<Rightarrow> throw DelegateNotFound
            | Some w \<Rightarrow>
                if \<not> isDelegate w then throw NotRegisteredAsDelegate else ret (publicKey w)))"

text \<open>Which events are lookups by token identifier, and which are name resolutions.\<close>

fun isIdLookup :: "event \<Rightarrow> bool" where
  "isIdLookup (GetUnikById _) = True"
| "isIdLookup _ = False"

fun isNameLookup :: "event \<Rightarrow> bool" where
  "isNameLookup (ResolveUnikName _) = True"
| "isNameLookup (GetUniknameWalletAddress _) = True"
| "isNameLookup _ = False"

subsection \<open>The nonce\<close>

text \<open>
  \<open>BigNumber.toString\<close>: the decimal digits of an integer, with a minus sign when it is
  negative. \<open>decimalValue\<close> reads such digits back.
\<close>

definition digitChar :: "nat \<Rightarrow> char" where
  "digitChar d = char_of (48 + d)"

function natToString :: "nat \<Rightarrow> string" where
  "natToString n =
     (if n < 10 then [digitChar n] else natToString (n div 10) @ [digitChar (n mod 10)])"
  by pat_completeness auto
termination
  by (relation "measure id") auto

definition BigNumber_toString :: "int \<Rightarrow> string" where
  "BigNumber_toString i =
     (if i < 0 then CHR ''-'' # natToString (nat (- i)) else natToString (nat i))"

definition decimalValue :: "string \<Rightarrow> nat" where
  "decimalValue s = foldl (\<lambda>acc c. 10 * acc + (of_char c - 48)) 0 s"

definition getNextWalletNonceFromPassphrase :: "env \<Rightarrow> string \<Rightarrow> string io" where
  "getNextWalletNonceFromPassphrase env passphrase =
     (let wallet = getWalletFromPassphrase env passphrase (network env)
      in andThen (call (GetNonce (address wallet)) (getNonce env (address wallet))) (\<lambda>nonce.
           ret (BigNumber_toString (nonce + 1))))"

subsection \<open>Passphrases\<close>

definition applyWalletPredicate :: "env \<Rightarrow> string \<Rightarrow> (wallet option \<Rightarrow> bool) \<Rightarrow> bool io" where
  "applyWalletPredicate env recipientId predicate tr =
     (case getWallet env recipientId of
        Inr wallet \<Rightarrow> (Inr (predicate wallet), tr @ [GetWallet recipientId])
      | Inl e \<Rightarrow>
          if e = NotFound then (Inr False, tr @ [GetWallet recipientId])
          else (Inl (thrown e), tr @ [GetWallet recipientId]))"

definition hasSecondPassphrase :: "env \<Rightarrow> string \<Rightarrow> bool io" where
  "hasSecondPassphrase env passphrase =
     (let cryptoAccountAddress = addressFromPassphrase env passphrase
      in applyWalletPredicate env cryptoAccountAddress
           (\<lambda>wallet. case wallet of None \<Rightarrow> False | Some w \<Rightarrow> truthy (secondPublicKey w)))"

definition askForPassphrases :: "env \<Rightarrow> flags \<Rightarrow> bool \<Rightarrow> cryptoAccountPassphrases io" where
  "askForPassphrases env flgs checkSecondPassphrase =
     andThen
       (if \<not> truthy (flag_passphrase flgs) then getPassphraseFromUser env
        else ret (case flag_passphrase flgs of Some p \<Rightarrow> p | None \<Rightarrow> []))
       (\<lambda>passphrase.
     andThen (lift (checkPassphraseFormat passphrase)) (\<lambda>_.
     andThen
       (if checkSecondPassphrase then
          andThen
            (if \<not> truthy (flag_second_passphrase flgs) then
               andThen (hasSecondPassphrase env passphrase) (\<lambda>needed.
                 if needed
                 then andThen (getSecondPassphraseFromUser env) (\<lambda>s. ret (Some s))
                 else ret (flag_second_passphrase flgs))
             else ret (flag_second_passphrase flgs))
            (\<lambda>secondPassphrase.
               case secondPassphrase of
                 None \<Rightarrow> ret secondPassphrase
               | Some s \<Rightarrow>
                   if s \<noteq> []
                   then andThen (lift (checkPassphraseFormat s)) (\<lambda>_. ret secondPassphrase)
                   else ret secondPassphrase)
        else ret (flag_second_passphrase flgs))
       (\<lambda>secondPassphrase. ret \<lparr>first = passphrase, second = secondPassphrase\<rparr>)))"

subsection \<open>The set-properties command\<close>

text \<open>\<open>prop.indexOf(":")\<close>, with \<open>None\<close> for \<open>-1\<close>.\<close>

fun indexOf :: "char \<Rightarrow> string \<Rightarrow> nat option" where
  "indexOf sep [] = None"
| "indexOf sep (c # cs) =
     (if c = sep then Some 0 else map_option Suc (indexOf sep cs))"

text \<open>The loop of \<open>parseProperties\<close>, with the dictionary built so far.\<close>

fun parsePropertiesFrom :: "properties \<Rightarrow> string list \<Rightarrow> error + properties" where
  "parsePropertiesFrom acc [] = Inr acc"
| "parsePropertiesFrom acc (prop # props) =
     (case indexOf CHR '':'' prop of
        None \<Rightarrow> Inl (PropertySeparatorError prop)
      | Some firstSeparatorIndex \<Rightarrow>
          parsePropertiesFrom
            (acc(take firstSeparatorIndex prop \<mapsto> Some (drop (firstSeparatorIndex + 1) prop)))
            props)"

definition parseProperties :: "string list \<Rightarrow> error + properties" where
  "parseProperties props = parsePropertiesFrom Map.empty props"

text \<open>
  How a transaction id that may be \<open>undefined\<close> reaches a parameter of type string: the
  text of the id, or the text \<open>undefined\<close>.
\<close>

definition idText :: "string option \<Rightarrow> string" where
  "idText i = (case i of None \<Rightarrow> ''undefined'' | Some s \<Rightarrow> s)"

text \<open>
  \<open>SetPropertiesCommand.do\<close> returns nothing and writes the unikid and the id and the
  confirmations of the final transaction to the terminal; the model returns these three
  values. Reading them from a transaction that was not found is a TypeError.
\<close>

definition SetPropertiesCommand_do :: "env \<Rightarrow> flags \<Rightarrow> commandOutput io" where
  "SetPropertiesCommand_do env flgs =
     (if flag_await flgs \<le> flag_confirmations flgs then
        throw (FlagsConsistencyError (flag_await flgs) (flag_confirmations flgs))
      else
        andThen (lift (checkUnikIdFormat (flag_unikid flgs))) (\<lambda>_.
        andThen
          (if \<not> truthy (flag_passphrase flgs) then getPassphraseFromUser env
           else ret (case flag_passphrase flgs of Some p \<Rightarrow> p | None \<Rightarrow> []))
          (\<lambda>passphrase.
        andThen (lift (checkPassphraseFormat passphrase)) (\<lambda>_.
        andThen (lift (parseProperties (flag_properties flgs))) (\<lambda>props.
          let transactionStruct =
                createNFTUpdateTransaction env (flag_unikid flgs) props (flag_fee flgs)
                  (getVersion env) passphrase
          in
          andThen (call (SendTransaction (struct_id transactionStruct))
                     (sendTransaction env transactionStruct)) (\<lambda>sendResult.
            case send_errors sendResult of
              Some errs \<Rightarrow> throw (TransactionNotAccepted errs)
            | None \<Rightarrow>
                andThen (awaitWaitTransactionConfirmations env (getBlockTime env)
                           (idText (struct_id transactionStruct)) (flag_await flgs)
                           (flag_confirmations flgs)) (\<lambda>finalTransaction.
                  case finalTransaction of
                    None \<Rightarrow> throw TypeError
                  | Some t \<Rightarrow>
                      ret \<lparr>out_id = flag_unikid flgs, out_transaction = tx_id t,
                           out_confirmations = confirmations t\<rparr>)))))))"

subsection \<open>Submission\<close>



subsection \<open>The property-update commands\<close>


subsection \<open>The delegate vote command\<close>



fun isWalletLookup :: "event \<Rightarrow> bool" where
  "isWalletLookup (GetWallet _) = True"
| "isWalletLookup _ = False"

section \<open>Statements about computations\<close>

text \<open>
  \<open>raisesOnly m P\<close>: every exception the computation \<open>m\<close> can end with satisfies \<open>P\<close>.
  \<open>keeps Q m\<close>: \<open>m\<close> extends the trace, and by no event that satisfies \<open>Q\<close>.
\<close>

definition raisesOnly :: "'a io \<Rightarrow> (error \<Rightarrow> bool) \<Rightarrow> bool" where
  "raisesOnly m P = (\<forall>tr e. fst (m tr) = Inl e \<longrightarrow> P e)"

definition keeps :: "(event \<Rightarrow> bool) \<Rightarrow> 'a io \<Rightarrow> bool" where
  "keeps Q m = (\<forall>tr. \<exists>new. snd (m tr) = tr @ new \<and> filter Q new = [])"

section \<open>Stand-ins for concrete runs\<close>

text \<open>
  A ledger service, builders and answers at the prompts that stand in for the external
  collaborators when a command is run on concrete flags: every lookup succeeds, the
  composed transactions carry the id \<open>tx\<close>, the nonce of every account is 41, and a target
  is a token identifier when it is 64 characters long and a name when it starts with @.
\<close>

definition twelveWords :: string where
  "twelveWords = ''a b c d e f g h i j k l''"

definition demoUnikid :: string where
  "demoUnikid = replicate 64 CHR ''a''"

definition demoEnv :: env where
  "demoEnv =
     \<lparr>getTransaction = ledgerOfList [0, 1, 3],
      getUnikById =
        (\<lambda>i. Inr \<lparr>ownerId = ''owner'', unik_chainmeta = \<lparr>height = 120\<rparr>,
                  unik_transactions = None\<rparr>),
      resolveUnikName =
        (\<lambda>n f. Inr \<lparr>resolve_error = None,
                    resolve_data =
                      Some \<lparr>data_unikid = demoUnikid, data_ownerAddress = ''owner''\<rparr>,
                    resolve_chainmeta = Some \<lparr>height = 120\<rparr>\<rparr>),
      getUniknameWalletAddress = (\<lambda>n. Inr ''owner''),
      getNonce = (\<lambda>a. Inr 41),
      getWallet =
        (\<lambda>a. Inr (Some \<lparr>address = a, publicKey = ''pk'', secondPublicKey = None,
                         isDelegate = True\<rparr>)),
      sendTransaction = (\<lambda>t. Inr \<lparr>send_errors = None\<rparr>),
      getBlockTime = 8,
      getVersion = 1,
      getExplorerUrl = ''https://explorer'',
      network = ''livenet'',
      isTokenId = (\<lambda>t. length t = 64),
      isDid = (\<lambda>t. take 1 t = ''@''),
      getWalletFromPassphrase =
        (\<lambda>p n. \<lparr>address = ''addr'', publicKey = ''pk'', secondPublicKey = None,
                  isDelegate = False\<rparr>),
      addressFromPassphrase = (\<lambda>p. ''addr''),
      promptPassphrase = twelveWords,
      promptSecondPassphrase = twelveWords,
      builderNftUpdate = (\<lambda>t p f v s. \<lparr>struct_id = Some ''tx'', struct_fee = f\<rparr>),
      utilsCreateNFTUpdateTransaction =
        (\<lambda>t p f n s1 s2. \<lparr>struct_id = Some ''tx'', struct_fee = f\<rparr>),
      createVoteTransaction = (\<lambda>vs f n s1 s2. \<lparr>struct_id = Some ''tx'', struct_fee = f\<rparr>),
      awaitNeeded = (\<lambda>f. flag_await f \<noteq> 0)\<rparr>"


definition demoFlags :: flags where
  "demoFlags =
     \<lparr>flag_unikid = demoUnikid, flag_properties = [''key:value''], flag_await = 3,
      flag_confirmations = 1, flag_passphrase = Some twelveWords,
      flag_second_passphrase = None, flag_fee = 100000000\<rparr>"


text \<open>\<open>Array.prototype.join\<close> with a one-character separator.\<close>

fun join :: "char \<Rightarrow> string list \<Rightarrow> string" where
  "join sep [] = []"
| "join sep [p] = p"
| "join sep (p # q # ps) = p @ sep # join sep (q # ps)"

section \<open>Properties of the confirmation tracker\<close>

declare waitTransactionConfirmations.simps [simp del]

lemma queries_snoc_GetTransaction:
  "queries (tr @ [GetTransaction t ms]) = Suc (queries tr)"
  by (simp add: queries_def)

lemma queries_Nil: "queries [] = 0"
  by (simp add: queries_def)

lemma queries_Cons_GetTransaction:
  "queries (GetTransaction t ms # tr) = Suc (queries tr)"
  by (simp add: queries_def)

lemma queries_append: "queries (tr @ tr') = queries tr + queries tr'"
  by (simp add: queries_def)

lemma queries_replicate_GetTransaction:
  "queries (replicate n (GetTransaction t ms)) = n"
  by (induction n) (simp_all add: queries_def)

text \<open>
  The run of the tracker in one statement: when the first \<open>k\<close> observations are below the
  target and either the next one reaches it or the retries are used up, the tracker makes
  \<open>k + 1\<close> queries and returns the last observation.
\<close>

lemma wait_stops_at:
  assumes "\<forall>j<k. confirmationsOf (g (queries tr + j) txid) < target"
    and "\<not> confirmationsOf (g (queries tr + k) txid) < target \<or> n \<le> int k"
    and "int k \<le> n \<or> k = 0"
  shows "waitTransactionConfirmations g bt txid n target tr =
           (g (queries tr + k) txid, tr @ replicate (Suc k) (GetTransaction txid (bt * 1000)))"
  using assms
proof (induction k arbitrary: tr n)
  case 0
  then show ?case
    by (subst waitTransactionConfirmations.simps) (auto simp: Let_def)
next
  case (Suc k)
  let ?ev = "GetTransaction txid (bt * 1000)"
  let ?tr = "tr @ [?ev]"
  have q: "queries ?tr = Suc (queries tr)"
    by (rule queries_snoc_GetTransaction)
  from Suc.prems(1) have low: "confirmationsOf (g (queries tr) txid) < target"
    by (metis add.right_neutral zero_less_Suc)
  from Suc.prems(3) have pos: "n > 0" by auto
  have a1: "\<forall>j<k. confirmationsOf (g (queries ?tr + j) txid) < target"
    using Suc.prems(1) by (simp add: q) (metis Suc_less_eq add_Suc_right)
  have a2: "\<not> confirmationsOf (g (queries ?tr + k) txid) < target \<or> n - 1 \<le> int k"
    using Suc.prems(2) by (auto simp: q)
  have a3: "int k \<le> n - 1 \<or> k = 0"
    using Suc.prems(3) by auto
  have "waitTransactionConfirmations g bt txid n target tr =
          waitTransactionConfirmations g bt txid (n - 1) target ?tr"
    using low pos by (subst waitTransactionConfirmations.simps) (simp add: Let_def)
  also have "\<dots> = (g (queries ?tr + k) txid, ?tr @ replicate (Suc k) ?ev)"
    by (rule Suc.IH [OF a1 a2 a3])
  finally show ?case
    by (simp add: q)
qed

text \<open>
  Claim C1. Polling ends at the first query whose observed confirmation count reaches the
  target, provided the retries allow that query: if the observations of the first \<open>k\<close>
  queries are below \<open>target\<close>, the next one is not, and \<open>k \<le> maxRetries\<close>, then the tracker
  makes exactly \<open>k + 1\<close> queries, which is at most \<open>maxRetries + 1\<close>, and returns what that
  query observed. With target 3, 3 retries and a ledger that answers 0, 1, 3, it returns 3
  confirmations after 3 queries.
\<close>

theorem waitTransactionConfirmations_stops_at_first_hit:
  assumes "\<forall>j<k. confirmationsOf (g (queries tr + j) txid) < target"
    and "target \<le> confirmationsOf (g (queries tr + k) txid)"
    and "int k \<le> maxRetries"
  shows "waitTransactionConfirmations g bt txid maxRetries target tr =
           (g (queries tr + k) txid, tr @ replicate (Suc k) (GetTransaction txid (bt * 1000)))
         \<and> queries (snd (waitTransactionConfirmations g bt txid maxRetries target tr)) =
             queries tr + (k + 1)
         \<and> int (k + 1) \<le> maxRetries + 1"
proof -
  have r: "waitTransactionConfirmations g bt txid maxRetries target tr =
      (g (queries tr + k) txid, tr @ replicate (Suc k) (GetTransaction txid (bt * 1000)))"
    using assms by (intro wait_stops_at) auto
  show ?thesis
    using assms(3)
    by (simp add: r queries_append queries_Cons_GetTransaction queries_replicate_GetTransaction)
qed

theorem waitTransactionConfirmations_stops_at_first_hit_witness:
  "confirmationsOf (ledgerOfList [0, 1, 3] 0 ''tx'') < 3
   \<and> confirmationsOf (ledgerOfList [0, 1, 3] 1 ''tx'') < 3
   \<and> 3 \<le> confirmationsOf (ledgerOfList [0, 1, 3] 2 ''tx'')
   \<and> waitTransactionConfirmations (ledgerOfList [0, 1, 3]) 8 ''tx'' 3 3 [] =
       (Some \<lparr>tx_id = ''tx'', confirmations = 3\<rparr>,
        [GetTransaction ''tx'' 8000, GetTransaction ''tx'' 8000, GetTransaction ''tx'' 8000])
   \<and> queries (snd (waitTransactionConfirmations (ledgerOfList [0, 1, 3]) 8 ''tx'' 3 3 [])) = 3"
proof -
  have c0: "confirmationsOf (ledgerOfList [0, 1, 3] 0 ''tx'') = 0"
    and c1: "confirmationsOf (ledgerOfList [0, 1, 3] 1 ''tx'') = 1"
    and c2: "confirmationsOf (ledgerOfList [0, 1, 3] 2 ''tx'') = 3"
    by (simp_all add: confirmationsOf_def ledgerOfList_def)
  have q0: "queries [] = 0"
    by (simp add: queries_def)
  have low: "\<forall>j<2. confirmationsOf (ledgerOfList [0, 1, 3] (queries [] + j) ''tx'') < 3"
  proof (intro allI impI)
    fix j :: nat
    assume "j < 2"
    then have "j = 0 \<or> j = 1" by auto
    then show "confirmationsOf (ledgerOfList [0, 1, 3] (queries [] + j) ''tx'') < 3"
      using c0 c1 by (auto simp: q0)
  qed
  have hit: "3 \<le> confirmationsOf (ledgerOfList [0, 1, 3] (queries [] + 2) ''tx'')"
    by (simp add: q0 confirmationsOf_def ledgerOfList_def)
  have budget: "int 2 \<le> 3" by simp
  note run = waitTransactionConfirmations_stops_at_first_hit
    [where k = 2 and g = "ledgerOfList [0, 1, 3]" and tr = "[]" and txid = "''tx''"
       and target = 3 and maxRetries = 3 and bt = 8]
  show ?thesis
    using run [OF low hit budget] by (simp add: confirmationsOf_def queries_def ledgerOfList_def numeral_2_eq_2 numeral_3_eq_3)
qed

text \<open>
  Claim C2, as stated, fails on a ledger whose constant count already reaches the target:
  with the count 3 on every query, target 3 and 3 retries the tracker makes one query, not
  four.
\<close>

theorem waitTransactionConfirmations_constant_counterexample:
  "confirmationsOf (constantLedger 3 0 ''tx'') = 3
   \<and> confirmationsOf (constantLedger 3 1 ''tx'') = 3
   \<and> queries (snd (waitTransactionConfirmations (constantLedger 3) 8 ''tx'' 3 3 [])) = 1
   \<and> queries (snd (waitTransactionConfirmations (constantLedger 3) 8 ''tx'' 3 3 [])) \<noteq> nat 3 + 1"
  by (simp add: waitTransactionConfirmations.simps confirmationsOf_def constantLedger_def
      queries_def Let_def)

text \<open>
  Claim C2, amended. If the ledger reports the same confirmation count \<open>c\<close> on every
  query, the tracker returns that count; it makes exactly \<open>maxRetries + 1\<close> queries when
  \<open>c\<close> is below the target (one query when \<open>maxRetries\<close> is not positive), and exactly one
  query when \<open>c\<close> reaches the target.
\<close>

theorem waitTransactionConfirmations_constant:
  assumes "\<forall>i. confirmationsOf (g i txid) = c"
  shows "confirmationsOf (fst (waitTransactionConfirmations g bt txid maxRetries target tr)) = c
         \<and> (c < target \<longrightarrow>
              queries (snd (waitTransactionConfirmations g bt txid maxRetries target tr)) =
                queries tr + (nat maxRetries + 1))
         \<and> (target \<le> c \<longrightarrow>
              queries (snd (waitTransactionConfirmations g bt txid maxRetries target tr)) =
                queries tr + 1)"
proof -
  have low: "c < target \<Longrightarrow>
      waitTransactionConfirmations g bt txid maxRetries target tr =
        (g (queries tr + nat maxRetries) txid,
         tr @ replicate (Suc (nat maxRetries)) (GetTransaction txid (bt * 1000)))"
    using assms by (intro wait_stops_at) auto
  have high: "target \<le> c \<Longrightarrow>
      waitTransactionConfirmations g bt txid maxRetries target tr =
        (g (queries tr + 0) txid, tr @ replicate (Suc 0) (GetTransaction txid (bt * 1000)))"
    using assms by (intro wait_stops_at) auto
  show ?thesis
  proof (cases "c < target")
    case True
    then show ?thesis
      using assms
      by (simp add: low queries_append queries_Cons_GetTransaction
          queries_replicate_GetTransaction)
  next
    case False
    then have "target \<le> c" by simp
    then show ?thesis
      using assms high [OF \<open>target \<le> c\<close>]
      by (simp add: queries_append queries_Cons_GetTransaction queries_Nil)
  qed
qed

theorem waitTransactionConfirmations_constant_witness:
  "confirmationsOf (fst (waitTransactionConfirmations (constantLedger 2) 8 ''tx'' 3 3 [])) = 2
   \<and> queries (snd (waitTransactionConfirmations (constantLedger 2) 8 ''tx'' 3 3 [])) = 4
   \<and> confirmationsOf (fst (waitTransactionConfirmations (constantLedger 2) 8 ''tx'' 3 2 [])) = 2
   \<and> queries (snd (waitTransactionConfirmations (constantLedger 2) 8 ''tx'' 3 2 [])) = 1"
proof -
  have const: "\<forall>i. confirmationsOf (constantLedger 2 i ''tx'') = 2"
    by (simp add: confirmationsOf_def constantLedger_def)
  have q0: "queries [] = 0"
    by (simp add: queries_def)
  show ?thesis
    using const
      waitTransactionConfirmations_constant [of "constantLedger 2" "''tx''" 2 8 3 3 "[]"]
      waitTransactionConfirmations_constant [of "constantLedger 2" "''tx''" 2 8 3 2 "[]"]
    by (simp add: q0)
qed

section \<open>Properties of the format checks\<close>

text \<open>
  \<open>str_split\<close> is the split of the language: the pieces joined with the separator give the
  string back, no piece holds the separator, and there is one piece more than there are
  separators.
\<close>

lemma str_split_not_Nil: "str_split sep s \<noteq> []"
  by (induction s) (auto split: list.splits)

lemma length_str_split:
  "length (str_split sep s) = Suc (length (filter (\<lambda>c. c = sep) s))"
  by (induction s) (auto split: list.splits)

lemma str_split_no_separator:
  "p \<in> set (str_split sep s) \<Longrightarrow> sep \<notin> set p"
  by (induction s arbitrary: p) (auto split: if_splits list.splits)

lemma join_str_split: "join sep (str_split sep s) = s"
proof (induction s)
  case Nil
  show ?case by simp
next
  case (Cons c cs)
  obtain p ps where sp: "str_split sep cs = p # ps"
    using str_split_not_Nil [of sep cs] by (cases "str_split sep cs") auto
  show ?case
    using Cons.IH by (cases ps) (auto simp: sp)
qed

text \<open>
  Claim C7, as stated, fails in both directions when tokens are delimited by whitespace:
  a string of eleven spaces holds no token and passes, and twelve words with two spaces
  between the first two are refused.
\<close>

theorem checkPassphraseFormat_whitespace_counterexample:
  "length (whitespace_tokens ''           '') = 0
   \<and> checkPassphraseFormat ''           '' = Inr ()
   \<and> length (whitespace_tokens ''a  b c d e f g h i j k l'') = 12
   \<and> checkPassphraseFormat ''a  b c d e f g h i j k l'' = Inl PassphraseFormatError"
  by (simp add: checkPassphraseFormat_def whitespace_tokens_def isWhitespace_def)

text \<open>
  Claim C7, amended. The passphrase check raises the format error for every string whose
  split at each single space character does not give exactly 12 pieces, empty pieces
  counted, and passes for every string whose split gives exactly 12 pieces; the number of
  pieces is the number of space characters plus one.
\<close>

theorem checkPassphraseFormat_single_space_split:
  "(length (str_split CHR '' '' passphrase) = 12 \<longrightarrow> checkPassphraseFormat passphrase = Inr ())
   \<and> (length (str_split CHR '' '' passphrase) \<noteq> 12 \<longrightarrow>
        checkPassphraseFormat passphrase = Inl PassphraseFormatError)
   \<and> length (str_split CHR '' '' passphrase) =
        Suc (length (filter (\<lambda>c. c = CHR '' '') passphrase))"
proof -
  have "passphrase \<noteq> []" if "length (str_split CHR '' '' passphrase) = 12"
    using that by auto
  then show ?thesis
    by (auto simp: checkPassphraseFormat_def length_str_split)
qed

theorem checkPassphraseFormat_single_space_split_witness:
  "length (str_split CHR '' '' twelveWords) = 12
   \<and> checkPassphraseFormat twelveWords = Inr ()
   \<and> length (str_split CHR '' '' ''a b'') = 2
   \<and> checkPassphraseFormat ''a b'' = Inl PassphraseFormatError"
proof -
  have l12: "length (str_split CHR '' '' twelveWords) = 12"
    by (simp add: twelveWords_def)
  have l2: "length (str_split CHR '' '' ''a b'') = 2"
    by simp
  show ?thesis
    using checkPassphraseFormat_single_space_split [of twelveWords]
      checkPassphraseFormat_single_space_split [of "''a b''"] l12 l2
    by simp
qed

text \<open>
  What \<open>checkUnikPropertyFormat\<close> does on every key: the format error for the empty key
  and for a key that mixes characters of the class with others, success for a key of
  such characters only, and the TypeError of the runtime for a key without any.
\<close>

lemma match_alnum_None: "match_alnum s = None \<longleftrightarrow> (\<forall>c\<in>set s. \<not> isAlnum c)"
  by (auto simp: match_alnum_def Let_def dropWhile_eq_Nil_conv)

lemma match_alnum_all: "s \<noteq> [] \<Longrightarrow> \<forall>c\<in>set s. isAlnum c \<Longrightarrow> match_alnum s = Some s"
  by (cases s) (auto simp: match_alnum_def Let_def takeWhile_eq_all_conv)

lemma match_alnum_Some_alnum: "match_alnum s = Some m \<Longrightarrow> \<forall>c\<in>set m. isAlnum c"
  by (auto simp: match_alnum_def Let_def split: if_splits dest: set_takeWhileD)

lemma checkUnikPropertyFormat_cases:
  "checkUnikPropertyFormat k =
     (if k = [] then Inl (PropertyFormatError k)
      else if \<forall>c\<in>set k. isAlnum c then Inr ()
      else if \<forall>c\<in>set k. \<not> isAlnum c then Inl TypeError
      else Inl (PropertyFormatError k))"
proof (cases "k = []")
  case True
  then show ?thesis by (simp add: checkUnikPropertyFormat_def)
next
  case ne: False
  show ?thesis
  proof (cases "\<forall>c\<in>set k. isAlnum c")
    case True
    then show ?thesis
      using ne by (simp add: checkUnikPropertyFormat_def match_alnum_all)
  next
    case notall: False
    show ?thesis
    proof (cases "match_alnum k")
      case None
      then have "\<forall>c\<in>set k. \<not> isAlnum c" by (simp add: match_alnum_None)
      then show ?thesis
        using ne notall None by (simp add: checkUnikPropertyFormat_def)
    next
      case (Some m)
      then have "\<not> (\<forall>c\<in>set k. \<not> isAlnum c)"
        using match_alnum_None [of k] by simp
      moreover have "m \<noteq> k"
        using match_alnum_Some_alnum [OF Some] notall by auto
      ultimately show ?thesis
        using ne notall Some by (simp add: checkUnikPropertyFormat_def)
    qed
  qed
qed

text \<open>
  Claim C8. The property key \<open>_\<close> is not alphanumeric, and the check does not raise the
  format error on it: \<open>match\<close> finds nothing, and reading element 0 of \<open>null\<close> raises a
  TypeError. Keys that are alphanumeric throughout pass, as the key \<open>aZ09\<close> does, and a key
  that mixes both kinds of characters gets the format error.
\<close>

theorem checkUnikPropertyFormat_no_alnum_TypeError:
  "checkUnikPropertyFormat ''_'' = Inl TypeError
   \<and> checkUnikPropertyFormat ''aZ09'' = Inr ()
   \<and> checkUnikPropertyFormat ''a-b'' = Inl (PropertyFormatError ''a-b'')
   \<and> checkUnikPropertyFormat '''' = Inl (PropertyFormatError '''')"
  by (simp add: checkUnikPropertyFormat_def match_alnum_def isAlnum_def)

section \<open>Properties of the consistency check\<close>

text \<open>
  Claim C9. For every list of heights, the consistency check fails with the consistency
  error if and only if the heights are not all equal; when they all agree (also when
  there is none) the check passes.
\<close>

theorem checkDataConsistency_iff:
  "(checkDataConsistency heights = Inl DataConsistencyError \<longleftrightarrow>
      \<not> (\<forall>x\<in>set heights. \<forall>y\<in>set heights. x = y))
   \<and> ((\<forall>x\<in>set heights. \<forall>y\<in>set heights. x = y) \<longrightarrow> checkDataConsistency heights = Inr ())"
  by (cases heights) (auto simp: checkDataConsistency_def list_all_iff)

theorem checkDataConsistency_iff_witness:
  "checkDataConsistency [''120'', ''121''] = Inl DataConsistencyError
   \<and> checkDataConsistency [''120'', ''120''] = Inr ()"
proof -
  have "\<not> (\<forall>x\<in>set [''120'', ''121'']. \<forall>y\<in>set [''120'', ''121'']. x = y)"
    by simp
  moreover have "\<forall>x\<in>set [''120'', ''120'']. \<forall>y\<in>set [''120'', ''120'']. x = y"
    by simp
  ultimately show ?thesis
    using checkDataConsistency_iff [of "[''120'', ''121'']"]
      checkDataConsistency_iff [of "[''120'', ''120'']"]
    by blast
qed

section \<open>Properties of the commands\<close>

lemmas io_defs = ret_def throw_def lift_def call_def andThen_def

subsection \<open>The nonce\<close>

declare natToString.simps [simp del]

lemma of_char_digitChar: "d < 10 \<Longrightarrow> (of_char (digitChar d) :: nat) = 48 + d"
  by (simp add: digitChar_def)

lemma decimalValue_snoc:
  "decimalValue (s @ [c]) = 10 * decimalValue s + (of_char c - 48)"
  by (simp add: decimalValue_def)

lemma decimalValue_natToString: "decimalValue (natToString n) = n"
proof (induction n rule: natToString.induct)
  case (1 n)
  show ?case
  proof (cases "n < 10")
    case True
    then show ?thesis
      by (subst natToString.simps) (simp add: decimalValue_def of_char_digitChar)
  next
    case False
    have "decimalValue (natToString n) =
            10 * decimalValue (natToString (n div 10)) + (of_char (digitChar (n mod 10)) - 48)"
      using False by (subst natToString.simps) (simp add: decimalValue_snoc)
    also have "\<dots> = 10 * (n div 10) + n mod 10"
      using "1.IH" [OF False] by (simp add: of_char_digitChar)
    finally show ?thesis by simp
  qed
qed

text \<open>
  Claim C5. When the ledger reports the nonce \<open>n \<ge> 0\<close> for the address that
  \<open>getWalletFromPassphrase\<close> derives from the passphrase and the network, the nonce
  resolver queries the nonce of that address, once, and returns the decimal text of
  \<open>n + 1\<close>.
\<close>

theorem getNextWalletNonceFromPassphrase_next:
  assumes "getNonce env (address (getWalletFromPassphrase env passphrase (network env))) = Inr n"
    and "0 \<le> n"
  shows "getNextWalletNonceFromPassphrase env passphrase tr =
           (Inr (BigNumber_toString (n + 1)),
            tr @ [GetNonce (address (getWalletFromPassphrase env passphrase (network env)))])
         \<and> int (decimalValue (BigNumber_toString (n + 1))) = n + 1"
proof -
  have "int (decimalValue (BigNumber_toString (n + 1))) = n + 1"
    using assms(2) by (simp add: BigNumber_toString_def decimalValue_natToString)
  then show ?thesis
    using assms(1) by (simp add: getNextWalletNonceFromPassphrase_def Let_def io_defs)
qed

theorem getNextWalletNonceFromPassphrase_next_witness:
  "getNonce demoEnv (address (getWalletFromPassphrase demoEnv twelveWords (network demoEnv))) =
     Inr 41
   \<and> getNextWalletNonceFromPassphrase demoEnv twelveWords [] = (Inr ''42'', [GetNonce ''addr''])
   \<and> decimalValue ''42'' = 42"
proof -
  have n: "getNonce demoEnv
      (address (getWalletFromPassphrase demoEnv twelveWords (network demoEnv))) = Inr 41"
    by (simp add: demoEnv_def)
  have s: "BigNumber_toString 42 = ''42''"
    by code_simp
  have a: "address (getWalletFromPassphrase demoEnv twelveWords (network demoEnv)) = ''addr''"
    by (simp add: demoEnv_def)
  show ?thesis
    using getNextWalletNonceFromPassphrase_next [OF n, of "[]"] n
    by (simp add: s a)
qed

subsection \<open>Rules for exceptions and traces\<close>

lemma raisesOnly_ret: "raisesOnly (ret x) P"
  by (simp add: raisesOnly_def ret_def)

lemma raisesOnly_throw: "P e \<Longrightarrow> raisesOnly (throw e) P"
  by (simp add: raisesOnly_def throw_def)

lemma raisesOnly_lift: "(\<And>e. r = Inl e \<Longrightarrow> P e) \<Longrightarrow> raisesOnly (lift r) P"
  by (simp add: raisesOnly_def lift_def)

lemma raisesOnly_call: "(\<And>f. P (thrown f)) \<Longrightarrow> raisesOnly (call ev r) P"
  by (cases r) (auto simp: raisesOnly_def call_def)

lemma raisesOnly_andThen:
  assumes "raisesOnly m P" and "\<And>x. raisesOnly (f x) P"
  shows "raisesOnly (andThen m f) P"
  unfolding raisesOnly_def
proof (intro allI impI)
  fix tr e
  assume run: "fst (andThen m f tr) = Inl e"
  obtain r tr' where m: "m tr = (r, tr')"
    by (cases "m tr")
  show "P e"
  proof (cases r)
    case (Inl e')
    then show ?thesis
      using run m assms(1) by (auto simp: andThen_def raisesOnly_def dest: spec [of _ tr])
  next
    case (Inr x)
    then show ?thesis
      using run m assms(2) [of x] by (auto simp: andThen_def raisesOnly_def)
  qed
qed

lemma raisesOnly_if:
  "(c \<Longrightarrow> raisesOnly m P) \<Longrightarrow> (\<not> c \<Longrightarrow> raisesOnly n P) \<Longrightarrow> raisesOnly (if c then m else n) P"
  by simp

lemma raisesOnly_case_option:
  "(x = None \<Longrightarrow> raisesOnly m P) \<Longrightarrow> (\<And>y. x = Some y \<Longrightarrow> raisesOnly (n y) P) \<Longrightarrow>
     raisesOnly (case x of None \<Rightarrow> m | Some y \<Rightarrow> n y) P"
  by (cases x) simp_all

lemma raisesOnly_awaitWait:
  "raisesOnly (awaitWaitTransactionConfirmations env bt txid n c) P"
  by (simp add: raisesOnly_def awaitWaitTransactionConfirmations_def split: prod.splits)

lemma raisesOnly_getPassphraseFromUser: "raisesOnly (getPassphraseFromUser env) P"
  by (simp add: raisesOnly_def getPassphraseFromUser_def call_def)

lemmas raisesOnly_intros =
  raisesOnly_andThen raisesOnly_if raisesOnly_case_option raisesOnly_ret raisesOnly_awaitWait
  raisesOnly_getPassphraseFromUser

lemma checkUnikIdFormat_error: "checkUnikIdFormat u = Inl e \<Longrightarrow> e = UnikidFormatError"
  by (simp add: checkUnikIdFormat_def Let_def split: if_splits)

lemma checkPassphraseFormat_error:
  "checkPassphraseFormat p = Inl e \<Longrightarrow> e = PassphraseFormatError"
  by (simp add: checkPassphraseFormat_def Let_def split: if_splits)

lemma parsePropertiesFrom_error:
  "parsePropertiesFrom acc props = Inl e \<Longrightarrow> \<exists>p. e = PropertySeparatorError p"
  by (induction props arbitrary: acc) (auto split: option.splits)

subsection \<open>The flags of set-properties\<close>

lemma thrown_not_flags: "thrown f \<noteq> FlagsConsistencyError a c"
  by (cases f) simp_all

lemma SetPropertiesCommand_do_checked:
  assumes "flag_confirmations flgs < flag_await flgs"
  shows "raisesOnly (SetPropertiesCommand_do env flgs) (\<lambda>e. \<forall>a c. e \<noteq> FlagsConsistencyError a c)"
proof -
  have not: "\<not> flag_await flgs \<le> flag_confirmations flgs"
    using assms by simp
  show ?thesis
    unfolding SetPropertiesCommand_do_def if_not_P [OF not] Let_def
    by (intro raisesOnly_intros raisesOnly_lift raisesOnly_call raisesOnly_throw allI)
       (auto simp: thrown_not_flags parseProperties_def
             dest: checkUnikIdFormat_error checkPassphraseFormat_error parsePropertiesFrom_error)
qed

text \<open>
  Claim C3. When the flag await is not strictly greater than the flag confirmations,
  \<open>SetPropertiesCommand.do\<close> ends with the flags consistency error and the trace is
  unchanged: nothing was sent, queried or asked. When await is strictly greater, the
  command does not end with that error, whatever the collaborators answer.
\<close>

theorem SetPropertiesCommand_do_flags_consistency:
  "(flag_await flgs \<le> flag_confirmations flgs \<longrightarrow>
      SetPropertiesCommand_do env flgs tr =
        (Inl (FlagsConsistencyError (flag_await flgs) (flag_confirmations flgs)), tr))
   \<and> (flag_confirmations flgs < flag_await flgs \<longrightarrow>
        (\<forall>a c. fst (SetPropertiesCommand_do env flgs tr) \<noteq> Inl (FlagsConsistencyError a c)))"
proof (intro conjI impI allI)
  assume "flag_await flgs \<le> flag_confirmations flgs"
  then show "SetPropertiesCommand_do env flgs tr =
      (Inl (FlagsConsistencyError (flag_await flgs) (flag_confirmations flgs)), tr)"
    by (simp add: SetPropertiesCommand_do_def throw_def)
next
  fix a c
  assume "flag_confirmations flgs < flag_await flgs"
  from SetPropertiesCommand_do_checked [OF this, of env]
  show "fst (SetPropertiesCommand_do env flgs tr) \<noteq> Inl (FlagsConsistencyError a c)"
    by (auto simp: raisesOnly_def)
qed

theorem SetPropertiesCommand_do_flags_consistency_witness:
  "flag_await (demoFlags\<lparr>flag_await := 1\<rparr>) \<le> flag_confirmations (demoFlags\<lparr>flag_await := 1\<rparr>)
   \<and> SetPropertiesCommand_do demoEnv (demoFlags\<lparr>flag_await := 1\<rparr>) [] =
       (Inl (FlagsConsistencyError 1 1), [])
   \<and> flag_confirmations demoFlags < flag_await demoFlags
   \<and> fst (SetPropertiesCommand_do demoEnv demoFlags []) \<noteq> Inl (FlagsConsistencyError 3 1)"
proof -
  have le: "flag_await (demoFlags\<lparr>flag_await := 1\<rparr>) \<le>
      flag_confirmations (demoFlags\<lparr>flag_await := 1\<rparr>)"
    by (simp add: demoFlags_def)
  have gt: "flag_confirmations demoFlags < flag_await demoFlags"
    by (simp add: demoFlags_def)
  show ?thesis
    using le gt
      SetPropertiesCommand_do_flags_consistency [of "demoFlags\<lparr>flag_await := 1\<rparr>" demoEnv "[]"]
      SetPropertiesCommand_do_flags_consistency [of demoFlags demoEnv "[]"]
    by (simp add: demoFlags_def)
qed

subsection \<open>Target resolution\<close>

text \<open>
  Claim C4. \<open>targetResolve\<close> makes exactly one lookup, by identifier for a target that
  \<open>isTokenId\<close> accepts and through the name resolution for a target that only \<open>isDid\<close>
  accepts, and for any other string it raises the format error with no lookup at all.
  \<open>resolveDelegateWalletPublicKey\<close> resolves an id that starts with @ through the name
  lookup and never by identifier, looks a 64 character id up by identifier and never by
  name, and raises the format error with no call at all on any other string.
\<close>

theorem target_resolution_exclusive:
  "(isTokenId env target \<longrightarrow>
      snd (targetResolve env flgs target tr) = tr @ [GetUnikById target])
   \<and> (\<not> isTokenId env target \<and> isDid env target \<longrightarrow>
        snd (targetResolve env flgs target tr) = tr @ [ResolveUnikName target])
   \<and> (\<not> isTokenId env target \<and> \<not> isDid env target \<longrightarrow>
        targetResolve env flgs target tr = (Inl TargetFormatError, tr))
   \<and> (delegateId \<noteq> [] \<and> take 1 delegateId = ''@'' \<longrightarrow>
        filter isNameLookup (snd (resolveDelegateWalletPublicKey env delegateId tr)) =
          filter isNameLookup tr @ [GetUniknameWalletAddress delegateId]
        \<and> filter isIdLookup (snd (resolveDelegateWalletPublicKey env delegateId tr)) =
            filter isIdLookup tr)
   \<and> (take 1 delegateId \<noteq> ''@'' \<and> length delegateId = 64 \<longrightarrow>
        filter isIdLookup (snd (resolveDelegateWalletPublicKey env delegateId tr)) =
          filter isIdLookup tr @ [GetUnikById delegateId]
        \<and> filter isNameLookup (snd (resolveDelegateWalletPublicKey env delegateId tr)) =
            filter isNameLookup tr)
   \<and> (take 1 delegateId \<noteq> ''@'' \<and> length delegateId \<noteq> 64 \<longrightarrow>
        resolveDelegateWalletPublicKey env delegateId tr = (Inl UnikidFormatError, tr))"
proof (intro conjI impI)
  assume "isTokenId env target"
  then show "snd (targetResolve env flgs target tr) = tr @ [GetUnikById target]"
    by (cases "getUnikById env target") (simp_all add: targetResolve_def io_defs)
next
  assume "\<not> isTokenId env target \<and> isDid env target"
  then show "snd (targetResolve env flgs target tr) = tr @ [ResolveUnikName target]"
    by (cases "resolveUnikName env target flgs")
       (simp_all add: targetResolve_def io_defs split: option.splits)
next
  assume "\<not> isTokenId env target \<and> \<not> isDid env target"
  then show "targetResolve env flgs target tr = (Inl TargetFormatError, tr)"
    by (simp add: targetResolve_def throw_def)
next
  assume at: "delegateId \<noteq> [] \<and> take 1 delegateId = ''@''"
  show "filter isNameLookup (snd (resolveDelegateWalletPublicKey env delegateId tr)) =
      filter isNameLookup tr @ [GetUniknameWalletAddress delegateId]"
    using at
    by (cases "getUniknameWalletAddress env delegateId")
       (auto simp: resolveDelegateWalletPublicKey_def io_defs
             split: sum.splits option.splits)
  show "filter isIdLookup (snd (resolveDelegateWalletPublicKey env delegateId tr)) =
      filter isIdLookup tr"
    using at
    by (cases "getUniknameWalletAddress env delegateId")
       (auto simp: resolveDelegateWalletPublicKey_def io_defs
             split: sum.splits option.splits)
next
  assume idf: "take 1 delegateId \<noteq> ''@'' \<and> length delegateId = 64"
  then have ok: "checkUnikIdFormat delegateId = Inr ()"
    by (auto simp: checkUnikIdFormat_def)
  show "filter isIdLookup (snd (resolveDelegateWalletPublicKey env delegateId tr)) =
      filter isIdLookup tr @ [GetUnikById delegateId]"
    using idf ok
    by (cases "getUnikById env delegateId")
       (auto simp: resolveDelegateWalletPublicKey_def io_defs
             split: sum.splits option.splits)
  show "filter isNameLookup (snd (resolveDelegateWalletPublicKey env delegateId tr)) =
      filter isNameLookup tr"
    using idf ok
    by (cases "getUnikById env delegateId")
       (auto simp: resolveDelegateWalletPublicKey_def io_defs
             split: sum.splits option.splits)
next
  assume "take 1 delegateId \<noteq> ''@'' \<and> length delegateId \<noteq> 64"
  then show "resolveDelegateWalletPublicKey env delegateId tr = (Inl UnikidFormatError, tr)"
    by (simp add: resolveDelegateWalletPublicKey_def checkUnikIdFormat_def io_defs)
qed

theorem target_resolution_exclusive_witness:
  "snd (targetResolve demoEnv demoFlags demoUnikid []) = [GetUnikById demoUnikid]
   \<and> snd (targetResolve demoEnv demoFlags ''@bob'' []) = [ResolveUnikName ''@bob'']
   \<and> targetResolve demoEnv demoFlags ''bob'' [] = (Inl TargetFormatError, [])
   \<and> filter isNameLookup (snd (resolveDelegateWalletPublicKey demoEnv ''@bob'' [])) =
       [GetUniknameWalletAddress ''@bob'']
   \<and> filter isIdLookup (snd (resolveDelegateWalletPublicKey demoEnv ''@bob'' [])) = []
   \<and> filter isIdLookup (snd (resolveDelegateWalletPublicKey demoEnv demoUnikid [])) =
       [GetUnikById demoUnikid]
   \<and> filter isNameLookup (snd (resolveDelegateWalletPublicKey demoEnv demoUnikid [])) = []
   \<and> resolveDelegateWalletPublicKey demoEnv ''bob'' [] = (Inl UnikidFormatError, [])"
proof -
  have cls: "isTokenId demoEnv demoUnikid" "\<not> isTokenId demoEnv ''@bob''"
    "isDid demoEnv ''@bob''" "\<not> isTokenId demoEnv ''bob''" "\<not> isDid demoEnv ''bob''"
    by (simp_all add: demoEnv_def demoUnikid_def)
  have shp: "take 1 demoUnikid \<noteq> ''@''" "length demoUnikid = 64"
    by (simp_all add: demoUnikid_def)
  show ?thesis
    using cls shp
      target_resolution_exclusive
        [where env = demoEnv and target = demoUnikid and flgs = demoFlags and tr = "[]"
           and delegateId = demoUnikid]
      target_resolution_exclusive
        [where env = demoEnv and target = "''@bob''" and flgs = demoFlags and tr = "[]"
           and delegateId = "''@bob''"]
      target_resolution_exclusive
        [where env = demoEnv and target = "''bob''" and flgs = demoFlags and tr = "[]"
           and delegateId = "''bob''"]
    by simp
qed

subsection \<open>Events a computation does not add\<close>

lemma keeps_ret: "keeps Q (ret x)"
  by (simp add: keeps_def ret_def)

lemma keeps_throw: "keeps Q (throw e)"
  by (simp add: keeps_def throw_def)

lemma keeps_lift: "keeps Q (lift r)"
  by (simp add: keeps_def lift_def)

lemma keeps_call: "\<not> Q ev \<Longrightarrow> keeps Q (call ev r)"
  by (cases r) (auto simp: keeps_def call_def)

lemma keeps_andThen:
  assumes "keeps Q m" and "\<And>x. keeps Q (f x)"
  shows "keeps Q (andThen m f)"
  unfolding keeps_def
proof
  fix tr
  obtain r tr' where m: "m tr = (r, tr')"
    by (cases "m tr")
  from assms(1) obtain new where new: "tr' = tr @ new" "filter Q new = []"
    using m by (auto simp: keeps_def dest: spec [of _ tr])
  show "\<exists>new. snd (andThen m f tr) = tr @ new \<and> filter Q new = []"
  proof (cases r)
    case (Inl e)
    then show ?thesis
      using m new by (simp add: andThen_def)
  next
    case (Inr x)
    from assms(2) [of x] obtain new' where "snd (f x tr') = tr' @ new'" "filter Q new' = []"
      by (auto simp: keeps_def)
    then have "snd (andThen m f tr) = tr @ (new @ new') \<and> filter Q (new @ new') = []"
      using m new Inr by (simp add: andThen_def)
    then show ?thesis by blast
  qed
qed

lemma keeps_if:
  "(c \<Longrightarrow> keeps Q m) \<Longrightarrow> (\<not> c \<Longrightarrow> keeps Q n) \<Longrightarrow> keeps Q (if c then m else n)"
  by simp

lemma keeps_case_option:
  "(x = None \<Longrightarrow> keeps Q m) \<Longrightarrow> (\<And>y. x = Some y \<Longrightarrow> keeps Q (n y)) \<Longrightarrow>
     keeps Q (case x of None \<Rightarrow> m | Some y \<Rightarrow> n y)"
  by (cases x) simp_all

lemma keeps_filter: "keeps Q m \<Longrightarrow> filter Q (snd (m tr)) = filter Q tr"
  by (auto simp: keeps_def dest!: spec [of _ tr])

lemmas keeps_intros =
  keeps_andThen keeps_if keeps_case_option keeps_ret keeps_throw keeps_lift

lemma keeps_getPassphraseFromUser:
  "\<not> Q PromptPassphrase \<Longrightarrow> keeps Q (getPassphraseFromUser env)"
  by (simp add: getPassphraseFromUser_def keeps_call)

lemma keeps_getSecondPassphraseFromUser:
  "\<not> Q PromptSecondPassphrase \<Longrightarrow> keeps Q (getSecondPassphraseFromUser env)"
  by (simp add: getSecondPassphraseFromUser_def keeps_call)





subsection \<open>A transaction without an id\<close>



subsection \<open>The second passphrase\<close>

lemma keeps_wallet_nothing_to_check:
  assumes "\<not> chk \<or> truthy (flag_second_passphrase flgs)"
  shows "keeps isWalletLookup (askForPassphrases env flgs chk)"
proof (cases chk)
  case False
  then show ?thesis
    unfolding askForPassphrases_def
    by (intro keeps_intros keeps_getPassphraseFromUser) simp_all
next
  case True
  then have t: "truthy (flag_second_passphrase flgs)"
    using assms by simp
  show ?thesis
    unfolding askForPassphrases_def
    using t
    by (intro keeps_intros keeps_getPassphraseFromUser keeps_getSecondPassphraseFromUser)
       simp_all
qed

text \<open>
  Claim C10. \<open>askForPassphrases\<close> looks the wallet up only when \<open>checkSecondPassphrase\<close> is
  true and the flags hold no second passphrase: in every other case the trace gains no
  wallet lookup, and in that case, once the first passphrase has passed its check, the
  wallet of the address derived from it is looked up. When \<open>checkSecondPassphrase\<close> is
  false and the first passphrase is well formed, the result holds the second passphrase
  of the flags as it is, whatever its format.
\<close>

theorem askForPassphrases_second_passphrase:
  "(\<not> chk \<or> truthy (flag_second_passphrase flgs) \<longrightarrow>
      filter isWalletLookup (snd (askForPassphrases env flgs chk tr)) =
        filter isWalletLookup tr)
   \<and> (chk \<and> \<not> truthy (flag_second_passphrase flgs) \<and> flag_passphrase flgs = Some p
        \<and> checkPassphraseFormat p = Inr () \<longrightarrow>
        filter isWalletLookup (snd (askForPassphrases env flgs chk tr)) =
          filter isWalletLookup tr @ [GetWallet (addressFromPassphrase env p)])
   \<and> (\<not> chk \<and> flag_passphrase flgs = Some p \<and> checkPassphraseFormat p = Inr () \<longrightarrow>
        askForPassphrases env flgs chk tr =
          (Inr \<lparr>first = p, second = flag_second_passphrase flgs\<rparr>, tr))
   \<and> (\<not> chk \<and> \<not> truthy (flag_passphrase flgs)
        \<and> checkPassphraseFormat (promptPassphrase env) = Inr () \<longrightarrow>
        askForPassphrases env flgs chk tr =
          (Inr \<lparr>first = promptPassphrase env, second = flag_second_passphrase flgs\<rparr>,
           tr @ [PromptPassphrase]))"
proof (intro conjI impI)
  assume "\<not> chk \<or> truthy (flag_second_passphrase flgs)"
  then show "filter isWalletLookup (snd (askForPassphrases env flgs chk tr)) =
      filter isWalletLookup tr"
    by (intro keeps_filter keeps_wallet_nothing_to_check)
next
  assume a: "chk \<and> \<not> truthy (flag_second_passphrase flgs) \<and> flag_passphrase flgs = Some p
      \<and> checkPassphraseFormat p = Inr ()"
  then have ne: "p \<noteq> []"
    by (auto simp: checkPassphraseFormat_def)
  show "filter isWalletLookup (snd (askForPassphrases env flgs chk tr)) =
      filter isWalletLookup tr @ [GetWallet (addressFromPassphrase env p)]"
    using a ne
    by (cases "getWallet env (addressFromPassphrase env p)")
       (auto simp: askForPassphrases_def hasSecondPassphrase_def applyWalletPredicate_def
             getSecondPassphraseFromUser_def io_defs Let_def
             split: option.splits sum.splits)
next
  assume a: "\<not> chk \<and> flag_passphrase flgs = Some p \<and> checkPassphraseFormat p = Inr ()"
  then have ne: "p \<noteq> []"
    by (auto simp: checkPassphraseFormat_def)
  show "askForPassphrases env flgs chk tr =
      (Inr \<lparr>first = p, second = flag_second_passphrase flgs\<rparr>, tr)"
    using a ne by (simp add: askForPassphrases_def io_defs)
next
  assume "\<not> chk \<and> \<not> truthy (flag_passphrase flgs)
      \<and> checkPassphraseFormat (promptPassphrase env) = Inr ()"
  then show "askForPassphrases env flgs chk tr =
      (Inr \<lparr>first = promptPassphrase env, second = flag_second_passphrase flgs\<rparr>,
       tr @ [PromptPassphrase])"
    by (simp add: askForPassphrases_def getPassphraseFromUser_def io_defs)
qed

theorem askForPassphrases_second_passphrase_witness:
  "checkPassphraseFormat ''one two'' = Inl PassphraseFormatError
   \<and> askForPassphrases demoEnv (demoFlags\<lparr>flag_second_passphrase := Some ''one two''\<rparr>)
         False [] =
       (Inr \<lparr>first = twelveWords, second = Some ''one two''\<rparr>, [])
   \<and> filter isWalletLookup
         (snd (askForPassphrases demoEnv
                 (demoFlags\<lparr>flag_second_passphrase := Some ''one two''\<rparr>) True [])) = []
   \<and> filter isWalletLookup (snd (askForPassphrases demoEnv demoFlags True [])) =
       [GetWallet ''addr'']
   \<and> askForPassphrases demoEnv (demoFlags\<lparr>flag_passphrase := None\<rparr>) False [] =
       (Inr \<lparr>first = twelveWords, second = None\<rparr>, [PromptPassphrase])"
proof -
  let ?f2 = "demoFlags\<lparr>flag_second_passphrase := Some ''one two''\<rparr>"
  let ?f0 = "demoFlags\<lparr>flag_passphrase := None\<rparr>"
  have bad: "checkPassphraseFormat ''one two'' = Inl PassphraseFormatError"
    by (simp add: checkPassphraseFormat_def)
  have fmt: "checkPassphraseFormat twelveWords = Inr ()"
    by (simp add: checkPassphraseFormat_def twelveWords_def)
  have fl: "flag_passphrase ?f2 = Some twelveWords" "truthy (flag_second_passphrase ?f2)"
    "flag_second_passphrase ?f2 = Some ''one two''"
    "flag_passphrase demoFlags = Some twelveWords" "\<not> truthy (flag_second_passphrase demoFlags)"
    "\<not> truthy (flag_passphrase ?f0)" "flag_second_passphrase ?f0 = None"
    by (simp_all add: demoFlags_def)
  have en: "promptPassphrase demoEnv = twelveWords"
    "addressFromPassphrase demoEnv twelveWords = ''addr''"
    by (simp_all add: demoEnv_def)
  show ?thesis
    using bad fmt fl en
      askForPassphrases_second_passphrase
        [where chk = False and flgs = ?f2 and env = demoEnv and tr = "[]" and p = twelveWords]
      askForPassphrases_second_passphrase
        [where chk = True and flgs = ?f2 and env = demoEnv and tr = "[]" and p = twelveWords]
      askForPassphrases_second_passphrase
        [where chk = True and flgs = demoFlags and env = demoEnv and tr = "[]"
           and p = twelveWords]
      askForPassphrases_second_passphrase
        [where chk = False and flgs = ?f0 and env = demoEnv and tr = "[]" and p = twelveWords]
    by simp
qed

end
